theory Spec2Isabelle
  imports Complex_Main
begin

section \<open>The catalog: products, orders and the lookups of MockDatabase\<close>

text \<open>
  \<^verbatim>\<open>class Product(BaseModel)\<close> and \<^verbatim>\<open>class Order(BaseModel)\<close> of main.py. Strings are lists of
  characters; a character stands for a code point below 256. The price is the number its decimal
  literal denotes (no operation of the program reads it), the order date is the triple given to
  \<^verbatim>\<open>datetime(year, month, day)\<close>.
\<close>

record product =
  p_id :: string
  p_name :: string
  p_price :: real
  p_stock :: int
  p_category :: string

record order =
  o_id :: string
  customer_email :: string
  status :: string
  items :: "string list"
  order_date :: "int \<times> int \<times> int"
  tracking_number :: "string option"

text \<open>
  The two dictionaries of \<^verbatim>\<open>MockDatabase\<close>. A Python dictionary keeps its keys in insertion
  order and \<^verbatim>\<open>search_orders_by_email\<close> walks \<^verbatim>\<open>self.orders.values()\<close> in that order, so each
  dictionary is an association list; \<^verbatim>\<open>dict.get\<close> is \<^const>\<open>map_of\<close>.
\<close>

record mock_database =
  products :: "(string \<times> product) list"
  orders :: "(string \<times> order) list"

text \<open>\<^verbatim>\<open>MockDatabase.__init__\<close>: the catalog created at startup.\<close>

definition MockDatabase :: mock_database where
  "MockDatabase = \<lparr>
     products = [
       (''NIKE001'', \<lparr>p_id = ''NIKE001'', p_name = ''Nike Air Zoom Pro'',
          p_price = 129.99, p_stock = 15, p_category = ''running_shoes''\<rparr>),
       (''ADIDAS001'', \<lparr>p_id = ''ADIDAS001'', p_name = ''Adidas Champions League Ball 2024'',
          p_price = 149.99, p_stock = 0, p_category = ''football''\<rparr>),
       (''YOGA001'', \<lparr>p_id = ''YOGA001'', p_name = ''Premium Yoga Mat'',
          p_price = 49.99, p_stock = 23, p_category = ''yoga''\<rparr>)],
     orders = [
       (''ORD54321'', \<lparr>o_id = ''ORD54321'', customer_email = ''margaret.brown@email.com'',
          status = ''processing'', items = [''YOGA001''], order_date = (2024, 12, 28),
          tracking_number = None\<rparr>),
       (''ORD54322'', \<lparr>o_id = ''ORD54322'', customer_email = ''anna.smith@email.com'',
          status = ''shipped'', items = [''NIKE001''], order_date = (2024, 12, 20),
          tracking_number = Some ''TRK123456789''\<rparr>)]\<rparr>"

text \<open>
  The three lookup methods. A method of a Python object can change the object, so each one
  returns its result together with the database as the call leaves it.
\<close>

definition check_stock :: "mock_database \<Rightarrow> string \<Rightarrow> product option \<times> mock_database" where
  "check_stock self product_id = (map_of (products self) product_id, self)"

definition get_order_status :: "mock_database \<Rightarrow> string \<Rightarrow> order option \<times> mock_database" where
  "get_order_status self order_id = (map_of (orders self) order_id, self)"

definition search_orders_by_email :: "mock_database \<Rightarrow> string \<Rightarrow> order list \<times> mock_database" where
  "search_orders_by_email self email =
     (filter (\<lambda>order. customer_email order = email) (map snd (orders self)), self)"

section \<open>Exceptions\<close>

text \<open>
  An exception that \<^verbatim>\<open>except Exception\<close> catches: \<^verbatim>\<open>StopIteration\<close> of \<^verbatim>\<open>next\<close> on an
  exhausted generator, \<^verbatim>\<open>KeyError\<close> of a missing dictionary key, \<^verbatim>\<open>ValueError\<close> of an integer
  with too many digits to be printed, and an error of the Google client, the HTTP layer or the
  language-model client with its message. \<^verbatim>\<open>KeyboardInterrupt\<close> and \<^verbatim>\<open>SystemExit\<close>, which do
  not derive from \<^verbatim>\<open>Exception\<close>, are not modelled.
\<close>

datatype exn = StopIteration | KeyError string | ValueError | Error string

section \<open>Resolving the context of a category\<close>

text \<open>
  \<^verbatim>\<open>str\<close> of a Python integer, as an f-string prints \<^verbatim>\<open>{product.stock}\<close>. CPython (3.11, and
  the security releases of 3.7 to 3.10) refuses to print an integer of more than
  \<^verbatim>\<open>sys.get_int_max_str_digits()\<close> decimal digits, 4300 unless the limit is changed, which
  main.py does not do: the conversion raises \<^verbatim>\<open>ValueError\<close>. The sign is not counted.
\<close>

definition digit_char :: "nat \<Rightarrow> char" where
  "digit_char d = ''0123456789'' ! d"

fun str_nat :: "nat \<Rightarrow> string" where
  "str_nat n = (if n < 10 then [digit_char n] else str_nat (n div 10) @ [digit_char (n mod 10)])"

declare str_nat.simps [simp del]

definition max_str_digits :: nat where
  "max_str_digits = 4300"

definition str_int :: "int \<Rightarrow> exn + string" where
  "str_int i =
     (if max_str_digits < length (str_nat (nat \<bar>i\<bar>)) then Inl ValueError
      else Inr (if i < 0 then CHR ''-'' # str_nat (nat (- i)) else str_nat (nat i)))"

text \<open>
  \<^verbatim>\<open>order.tracking_number or 'Not yet available'\<close>: Python's \<^verbatim>\<open>or\<close> takes the right operand
  when the left one is \<^verbatim>\<open>None\<close> and also when it is the empty string.
\<close>

definition tracking_or_default :: "string option \<Rightarrow> string" where
  "tracking_or_default t =
     (case t of None \<Rightarrow> ''Not yet available''
      | Some s \<Rightarrow> if s = [] then ''Not yet available'' else s)"

text \<open>
  \<^verbatim>\<open>EmailResponseGenerator._get_context\<close>. The category is a Python string; an instance of a
  pydantic model is always true in \<^verbatim>\<open>if order:\<close>, so the test is on \<^verbatim>\<open>None\<close> alone. When a
  lookup finds nothing, control leaves the \<^verbatim>\<open>if\<close>/\<^verbatim>\<open>elif\<close> and reaches the last \<^verbatim>\<open>return\<close>.
  The f-string of the stock level raises when the stock cannot be printed; the name, the status
  and the tracking number are strings already.
\<close>

definition get_context :: "mock_database \<Rightarrow> string \<Rightarrow> (exn + string) \<times> mock_database" where
  "get_context db category =
     (if category = ''order_status'' then
        (let order_id = ''ORD54321'' in
         case get_order_status db order_id of (found, db1) \<Rightarrow>
           (case found of
              Some order \<Rightarrow>
                (Inr (''Order '' @ order_id @ '' is '' @ status order @ ''. Tracking number: ''
                   @ tracking_or_default (tracking_number order)), db1)
            | None \<Rightarrow> (Inr ''No additional context available'', db1)))
      else if category = ''stock_inquiry'' then
        (case check_stock db ''ADIDAS001'' of (found, db1) \<Rightarrow>
           (case found of
              Some product \<Rightarrow>
                (case str_int (p_stock product) of
                   Inl e \<Rightarrow> (Inl e, db1)
                 | Inr stock_level \<Rightarrow>
                     (Inr (''Product '' @ p_name product @ '' stock level: '' @ stock_level), db1))
            | None \<Rightarrow> (Inr ''No additional context available'', db1)))
      else (Inr ''No additional context available'', db))"

text \<open>
  The stock of the product that \<^verbatim>\<open>_get_context\<close> looks up can be printed: the product is absent
  or its stock has at most \<^const>\<open>max_str_digits\<close> decimal digits.
\<close>

definition stock_printable :: "mock_database \<Rightarrow> bool" where
  "stock_printable d =
     (case map_of (products d) ''ADIDAS001'' of
        None \<Rightarrow> True
      | Some p \<Rightarrow> \<bar>p_stock p\<bar> < 10 ^ max_str_digits)"

text \<open>
  A catalog a \<^verbatim>\<open>MockDatabase\<close> object can hold (\<^verbatim>\<open>stock: int\<close> is unbounded): the ball of the
  startup catalog with a stock of \<open>10 ^ max_str_digits\<close>, an integer of one digit more than
  the limit.
\<close>

definition overlong_catalog :: mock_database where
  "overlong_catalog =
     \<lparr>products = [
        (''ADIDAS001'', \<lparr>p_id = ''ADIDAS001'', p_name = ''Adidas Champions League Ball 2024'',
           p_price = 149.99, p_stock = 10 ^ max_str_digits, p_category = ''football''\<rparr>)],
      orders = []\<rparr>"

section \<open>The mail store and the language model: the world outside the program\<close>

text \<open>\<^verbatim>\<open>MailCategory.category\<close>, a pydantic \<^verbatim>\<open>Literal\<close> of five strings.\<close>

datatype category = Order_status | Product_return | Stock_inquiry | Other | Product_complaint

fun category_str :: "category \<Rightarrow> string" where
  "category_str Order_status = ''order_status''"
| "category_str Product_return = ''product_return''"
| "category_str Stock_inquiry = ''stock_inquiry''"
| "category_str Other = ''other''"
| "category_str Product_complaint = ''product_complaint''"

text \<open>
  What the Gmail API returns: an entry of a listing, one page of a listing (its
  \<^verbatim>\<open>messages\<close> and \<^verbatim>\<open>nextPageToken\<close> keys may be missing), a full message with the
  name/value pairs of \<^verbatim>\<open>payload.headers\<close>, and a draft resource, a JSON object given by its
  key/value pairs (the empty object is false in \<^verbatim>\<open>if draft:\<close>).
\<close>

record message_ref =
  ref_id :: string
  thread_id :: string

record page =
  page_messages :: "message_ref list option"
  next_page_token :: "string option"

record message =
  msg_id :: string
  msg_headers :: "(string \<times> string) list"
  msg_snippet :: string

type_synonym draft = "(string \<times> string) list"

text \<open>The dictionary that \<^verbatim>\<open>get_message_content\<close> returns.\<close>

record content =
  content_id :: string
  subject :: string
  sender :: string
  snippet :: string

text \<open>
  The external services, as functions of an explicit world \<open>'w\<close> that every call may change:
  the three Gmail requests behind \<^verbatim>\<open>.execute()\<close>, the two language-model calls behind
  \<^verbatim>\<open>.invoke\<close>, each returning its value or raising, and \<^verbatim>\<open>html.unescape\<close> of the standard
  library, which is pure and total. The request that creates a draft receives the recipient, the
  subject and the body; building the MIME text and its base64 form, which happens inside the same
  \<^verbatim>\<open>try\<close>, belongs to it. The user id is always \<^verbatim>\<open>me\<close> and is left out.
\<close>

record 'w env =
  list_request :: "'w \<Rightarrow> string \<Rightarrow> string option \<Rightarrow> (exn + page) \<times> 'w"
  get_request :: "'w \<Rightarrow> string \<Rightarrow> (exn + message) \<times> 'w"
  classify_llm :: "'w \<Rightarrow> string \<Rightarrow> (exn + category) \<times> 'w"
  respond_llm :: "'w \<Rightarrow> string \<Rightarrow> (exn + string) \<times> 'w"
  create_request :: "'w \<Rightarrow> string \<Rightarrow> string \<Rightarrow> string \<Rightarrow> (exn + draft) \<times> 'w"
  html_unescape :: "string \<Rightarrow> string"

text \<open>The calls made to the external services, in the order they are made.\<close>

datatype call =
    ListCall string "string option"
  | GetCall string
  | ClassifyCall string
  | ComposeCall string
  | DraftCall string string string

text \<open>The calls that reach the response composer and the calls that create a draft.\<close>

fun is_compose_call :: "call \<Rightarrow> bool" where
  "is_compose_call (ComposeCall p) = True"
| "is_compose_call c = False"

fun is_draft_call :: "call \<Rightarrow> bool" where
  "is_draft_call (DraftCall t s b) = True"
| "is_draft_call c = False"

text \<open>The lines printed, one constructor for each \<^verbatim>\<open>print\<close> of main.py with the values it shows.\<close>

datatype log_line =
    ErrorOccurred exn
  | ProcessingEmail string
  | CouldNotFetch string
  | RetrievedContent content
  | ClassifiedAs category
  | CategoryNotSupported string
  | GeneratingResponse string
  | UsingContext string
  | GeneratedResponse string
  | ExtractedEmail string
  | CreatedDraftTo string
  | DraftError exn
  | ToAddressWas string
  | DraftCreatedFor string
  | ResponseLine string

text \<open>
  The state of a run: the outside world, the catalog object, the calls made and the lines
  printed so far.
\<close>

record 'w state =
  world :: 'w
  db :: mock_database
  calls :: "call list"
  log :: "log_line list"

section \<open>Listing and fetching messages\<close>

text \<open>
  The \<^verbatim>\<open>while 'nextPageToken' in response\<close> loop of \<^verbatim>\<open>list_messages\<close>. It runs as long as
  the mail store hands out page tokens, so it is a partial function: \<open>None\<close> is a loop that
  never ends. A later page is read with \<^verbatim>\<open>response['messages']\<close>, which raises when the key
  is missing.
\<close>

partial_function (option) list_pages ::
  "'w env \<Rightarrow> string \<Rightarrow> page \<Rightarrow> message_ref list \<Rightarrow> 'w state
     \<Rightarrow> ((exn + message_ref list) \<times> 'w state) option" where
  "list_pages env query response messages st =
     (case next_page_token response of
        None \<Rightarrow> Some (Inr messages, st)
      | Some page_token \<Rightarrow>
          (case list_request env (world st) query (Some page_token) of (r, w') \<Rightarrow>
             (case r of
                Inl e \<Rightarrow>
                  Some (Inl e, st\<lparr>world := w', calls := calls st @ [ListCall query (Some page_token)]\<rparr>)
              | Inr response' \<Rightarrow>
                  (case page_messages response' of
                     None \<Rightarrow>
                       Some (Inl (KeyError ''messages''),
                         st\<lparr>world := w', calls := calls st @ [ListCall query (Some page_token)]\<rparr>)
                   | Some added \<Rightarrow>
                       list_pages env query response' (messages @ added)
                         (st\<lparr>world := w', calls := calls st @ [ListCall query (Some page_token)]\<rparr>)))))"

text \<open>The body of the \<^verbatim>\<open>try\<close> of \<^verbatim>\<open>list_messages\<close>: the first request, then the loop.\<close>

definition list_try ::
  "'w env \<Rightarrow> 'w state \<Rightarrow> string \<Rightarrow> ((exn + message_ref list) \<times> 'w state) option" where
  "list_try env st query =
     (case list_request env (world st) query None of (r, w') \<Rightarrow>
        (case r of
           Inl e \<Rightarrow> Some (Inl e, st\<lparr>world := w', calls := calls st @ [ListCall query None]\<rparr>)
         | Inr response \<Rightarrow>
             list_pages env query response
               (case page_messages response of None \<Rightarrow> [] | Some found \<Rightarrow> found)
               (st\<lparr>world := w', calls := calls st @ [ListCall query None]\<rparr>)))"

text \<open>\<^verbatim>\<open>list_messages\<close>: the \<^verbatim>\<open>try\<close> with its handler, which prints the error and returns \<^verbatim>\<open>[]\<close>.\<close>

definition list_messages ::
  "'w env \<Rightarrow> 'w state \<Rightarrow> string \<Rightarrow> (message_ref list \<times> 'w state) option" where
  "list_messages env st query =
     (case list_try env st query of
        None \<Rightarrow> None
      | Some (r, st1) \<Rightarrow>
          (case r of
             Inl e \<Rightarrow> Some ([], st1\<lparr>log := log st1 @ [ErrorOccurred e]\<rparr>)
           | Inr messages \<Rightarrow> Some (messages, st1)))"

text \<open>
  \<^verbatim>\<open>next(h['value'] for h in headers if h['name'] == name)\<close>: the value of the first header
  with that name; \<^verbatim>\<open>next\<close> raises \<^verbatim>\<open>StopIteration\<close> when there is none.
\<close>

fun header_value :: "string \<Rightarrow> (string \<times> string) list \<Rightarrow> exn + string" where
  "header_value name [] = Inl StopIteration"
| "header_value name (h # hs) = (if fst h = name then Inr (snd h) else header_value name hs)"

text \<open>The part of the \<^verbatim>\<open>try\<close> of \<^verbatim>\<open>get_message_content\<close> that follows the request.\<close>

definition content_of_message :: "(string \<Rightarrow> string) \<Rightarrow> message \<Rightarrow> exn + content" where
  "content_of_message unescape m =
     (case header_value ''Subject'' (msg_headers m) of
        Inl e \<Rightarrow> Inl e
      | Inr subj \<Rightarrow>
          (case header_value ''From'' (msg_headers m) of
             Inl e \<Rightarrow> Inl e
           | Inr sndr \<Rightarrow>
               Inr \<lparr>content_id = msg_id m, subject = subj, sender = sndr,
                    snippet = unescape (msg_snippet m)\<rparr>))"

text \<open>
  \<^verbatim>\<open>get_message_content\<close>: any exception of the body is printed and \<^verbatim>\<open>None\<close> returned. A
  response that lacks the \<^verbatim>\<open>payload\<close>, \<^verbatim>\<open>snippet\<close> or \<^verbatim>\<open>id\<close> key would raise \<^verbatim>\<open>KeyError\<close> in
  the same \<^verbatim>\<open>try\<close>, with the same effect; the record \<open>message\<close> has all three.
\<close>

definition get_message_content ::
  "'w env \<Rightarrow> 'w state \<Rightarrow> string \<Rightarrow> content option \<times> 'w state" where
  "get_message_content env st message_id =
     (case get_request env (world st) message_id of (r, w') \<Rightarrow>
        (case (case r of Inl e \<Rightarrow> Inl e | Inr m \<Rightarrow> content_of_message (html_unescape env) m) of
           Inl e \<Rightarrow>
             (None, st\<lparr>world := w', calls := calls st @ [GetCall message_id],
                        log := log st @ [ErrorOccurred e]\<rparr>)
         | Inr c \<Rightarrow>
             (Some c, st\<lparr>world := w', calls := calls st @ [GetCall message_id]\<rparr>)))"

section \<open>Classifying and composing\<close>

text \<open>\<^verbatim>\<open>classify_email\<close>: one call of the model with structured output; nothing is caught.\<close>

definition classify_email ::
  "'w env \<Rightarrow> 'w state \<Rightarrow> string \<Rightarrow> (exn + category) \<times> 'w state" where
  "classify_email env st email_content =
     (case classify_llm env (world st) email_content of (r, w') \<Rightarrow>
        (r, st\<lparr>world := w', calls := calls st @ [ClassifyCall email_content]\<rparr>))"

text \<open>The f-string of \<^verbatim>\<open>generate_response\<close>, line by line as main.py indents it.\<close>

definition newline :: char where
  "newline = CHR 0x0A"

definition indent :: string where
  "indent = ''        ''"

definition prompt :: "content \<Rightarrow> string \<Rightarrow> string" where
  "prompt email_content context =
     [newline]
     @ indent @ ''You are a customer service representative for a sports equipment store.'' @ [newline]
     @ indent @ ''Please generate a professional and helpful response to the customer email below.'' @ [newline]
     @ indent @ ''Use the provided context information to give accurate details.'' @ [newline]
     @ [newline]
     @ indent @ ''Original Email:'' @ [newline]
     @ indent @ ''Subject: '' @ subject email_content @ [newline]
     @ indent @ ''Content: '' @ snippet email_content @ [newline]
     @ [newline]
     @ indent @ ''Additional Context:'' @ [newline]
     @ indent @ context @ [newline]
     @ [newline]
     @ indent @ ''Generate a polite and informative response:'' @ [newline]
     @ indent"

text \<open>
  \<^verbatim>\<open>EmailResponseGenerator.generate_response\<close>: the context, two printed lines, the call of the
  model, and a third line when the call returned. Nothing is caught: an exception of
  \<^verbatim>\<open>_get_context\<close> or of the model leaves the method.
\<close>

definition generate_response ::
  "'w env \<Rightarrow> 'w state \<Rightarrow> string \<Rightarrow> content \<Rightarrow> (exn + string) \<times> 'w state" where
  "generate_response env st category email_content =
     (case get_context (db st) category of (resolved, db1) \<Rightarrow>
        (case resolved of
           Inl e \<Rightarrow> (Inl e, st\<lparr>db := db1\<rparr>)
         | Inr context \<Rightarrow>
             (case respond_llm env (world st) (prompt email_content context) of (r, w') \<Rightarrow>
                (case r of
                   Inl e \<Rightarrow>
                     (Inl e, st\<lparr>world := w', db := db1,
                        calls := calls st @ [ComposeCall (prompt email_content context)],
                        log := log st @ [GeneratingResponse category, UsingContext context]\<rparr>)
                 | Inr response_text \<Rightarrow>
                     (Inr response_text, st\<lparr>world := w', db := db1,
                        calls := calls st @ [ComposeCall (prompt email_content context)],
                        log := log st @ [GeneratingResponse category, UsingContext context,
                                         GeneratedResponse response_text]\<rparr>)))))"

section \<open>Extracting the address and creating the draft\<close>

text \<open>
  \<^verbatim>\<open>\s\<close> of a Python pattern on \<^verbatim>\<open>str\<close>, and the characters \<^verbatim>\<open>str.strip()\<close> removes: the
  characters for which \<^verbatim>\<open>str.isspace\<close> holds, here those below 256.
\<close>

definition isspace :: "char \<Rightarrow> bool" where
  "isspace c = (of_char c \<in> set [9, 10, 11, 12, 13, 28, 29, 30, 31, 32, 133, 160 :: nat])"

definition strip :: "string \<Rightarrow> string" where
  "strip s = rev (dropWhile isspace (rev (dropWhile isspace s)))"

definition dquote :: char where
  "dquote = CHR 0x22"

text \<open>The first alternative that matches, as a backtracking matcher tries them.\<close>

definition orelse :: "'a option \<Rightarrow> 'a option \<Rightarrow> 'a option" where
  "orelse a b = (case a of Some x \<Rightarrow> Some x | None \<Rightarrow> b)"

text \<open>
  The pattern \<^verbatim>\<open>"?([^"]*)"?\s*<(.+?)>\<close>, one function for each of its pieces, each matching
  at the head of the text and returning group 2 of the first match in the order in which Python
  tries them: a greedy piece first takes a character and gives it back when the rest fails, the
  lazy \<^verbatim>\<open>.+?\<close> first tries to stop. The dot does not match a newline; \<^verbatim>\<open>[^"]\<close> does.

  \<open>close_lazy acc s\<close>: inside \<^verbatim>\<open>(.+?)>\<close> with the characters \<open>acc\<close> already in the group.
\<close>

fun close_lazy :: "string \<Rightarrow> string \<Rightarrow> string option" where
  "close_lazy acc [] = None"
| "close_lazy acc (c # cs) =
     (if c = CHR ''>'' then Some acc
      else if c = newline then None
      else close_lazy (acc @ [c]) cs)"

text \<open>\<^verbatim>\<open>(.+?)>\<close>: the group holds one character at least.\<close>

fun angle_group :: "string \<Rightarrow> string option" where
  "angle_group [] = None"
| "angle_group (c # cs) = (if c = newline then None else close_lazy [c] cs)"

text \<open>\<^verbatim>\<open>\s*<(.+?)>\<close>\<close>

fun match_space :: "string \<Rightarrow> string option" where
  "match_space [] = None"
| "match_space (c # cs) =
     orelse (if isspace c then match_space cs else None)
            (if c = CHR ''<'' then angle_group cs else None)"

text \<open>\<^verbatim>\<open>"?\s*<(.+?)>\<close>\<close>

definition match_quote :: "string \<Rightarrow> string option" where
  "match_quote s =
     orelse (case s of [] \<Rightarrow> None | c # cs \<Rightarrow> if c = dquote then match_space cs else None)
            (match_space s)"

text \<open>\<^verbatim>\<open>([^"]*)"?\s*<(.+?)>\<close>\<close>

fun match_name :: "string \<Rightarrow> string option" where
  "match_name [] = match_quote []"
| "match_name (c # cs) =
     orelse (if c \<noteq> dquote then match_name cs else None)
            (match_quote (c # cs))"

text \<open>The whole pattern at the head of the text.\<close>

definition match_here :: "string \<Rightarrow> string option" where
  "match_here s =
     orelse (case s of [] \<Rightarrow> None | c # cs \<Rightarrow> if c = dquote then match_name cs else None)
            (match_name s)"

text \<open>\<^verbatim>\<open>email_pattern.search(to)\<close>: the first position where the pattern matches.\<close>

fun pattern_search :: "string \<Rightarrow> string option" where
  "pattern_search [] = match_here []"
| "pattern_search (c # cs) = orelse (match_here (c # cs)) (pattern_search cs)"

text \<open>The \<^verbatim>\<open>clean_email\<close> of \<^verbatim>\<open>create_draft_email\<close>.\<close>

definition clean_email :: "string \<Rightarrow> string" where
  "clean_email to = (case pattern_search to of Some group2 \<Rightarrow> group2 | None \<Rightarrow> strip to)"

text \<open>
  \<^verbatim>\<open>create_draft_email\<close>: the address, a printed line, the request; an exception is printed
  with the raw address and \<^verbatim>\<open>None\<close> returned.
\<close>

definition create_draft_email ::
  "'w env \<Rightarrow> 'w state \<Rightarrow> string \<Rightarrow> string \<Rightarrow> string \<Rightarrow> draft option \<times> 'w state" where
  "create_draft_email env st to subj message_body =
     (case create_request env (world st) (clean_email to) subj message_body of (r, w') \<Rightarrow>
        (case r of
           Inl e \<Rightarrow>
             (None, st\<lparr>world := w',
                calls := calls st @ [DraftCall (clean_email to) subj message_body],
                log := log st @ [ExtractedEmail (clean_email to), DraftError e, ToAddressWas to]\<rparr>)
         | Inr d \<Rightarrow>
             (Some d, st\<lparr>world := w',
                calls := calls st @ [DraftCall (clean_email to) subj message_body],
                log := log st @ [ExtractedEmail (clean_email to), CreatedDraftTo (clean_email to)]\<rparr>)))"

section \<open>The message loop\<close>

text \<open>
  The ways one turn of the loop ends, under the names the specification gives them:
  \<open>Skipped\<close> is the \<^verbatim>\<open>continue\<close> of an unsupported category, \<open>Drafted\<close> the turn whose
  \<^verbatim>\<open>if draft:\<close> is taken, \<open>Failed\<close> the \<^verbatim>\<open>continue\<close> after a content of \<^verbatim>\<open>None\<close> and the turn
  whose draft is \<^verbatim>\<open>None\<close> or empty.
\<close>

datatype outcome = Skipped | Drafted | Failed

definition draft_truthy :: "draft option \<Rightarrow> bool" where
  "draft_truthy d = (case d of None \<Rightarrow> False | Some kvs \<Rightarrow> kvs \<noteq> [])"

text \<open>
  The body of \<^verbatim>\<open>for email in messages\<close>. \<open>Inl e\<close> is the exception \<open>e\<close> leaving the body:
  the calls of \<^verbatim>\<open>classify_email\<close> and \<^verbatim>\<open>generate_response\<close> stand in no \<^verbatim>\<open>try\<close>.
\<close>

definition process_email :: "'w env \<Rightarrow> 'w state \<Rightarrow> message_ref \<Rightarrow> (exn + outcome) \<times> 'w state" where
  "process_email env st email =
     (case get_message_content env (st\<lparr>log := log st @ [ProcessingEmail (ref_id email)]\<rparr>)
             (ref_id email) of (fetched, st1) \<Rightarrow>
        (case fetched of
           None \<Rightarrow> (Inr Failed, st1\<lparr>log := log st1 @ [CouldNotFetch (ref_id email)]\<rparr>)
         | Some c \<Rightarrow>
             (case classify_email env (st1\<lparr>log := log st1 @ [RetrievedContent c]\<rparr>) (snippet c)
                of (classified, st2) \<Rightarrow>
                (case classified of
                   Inl e \<Rightarrow> (Inl e, st2)
                 | Inr mail_category \<Rightarrow>
                     (if category_str mail_category \<in> set [''other''] then
                        (Inr Skipped,
                         st2\<lparr>log := log st2 @ [ClassifiedAs mail_category,
                                                CategoryNotSupported (subject c)]\<rparr>)
                      else
                        (case generate_response env
                                (st2\<lparr>log := log st2 @ [ClassifiedAs mail_category]\<rparr>)
                                (category_str mail_category) c of (composed, st3) \<Rightarrow>
                           (case composed of
                              Inl e \<Rightarrow> (Inl e, st3)
                            | Inr response \<Rightarrow>
                                (case create_draft_email env st3 (sender c)
                                        (''Re: '' @ subject c) response of (d, st4) \<Rightarrow>
                                   (if draft_truthy d then
                                      (Inr Drafted,
                                       st4\<lparr>log := log st4 @ [DraftCreatedFor (subject c),
                                                              ResponseLine response]\<rparr>)
                                    else (Inr Failed, st4))))))))))"

text \<open>
  The loop: the outcomes of the turns that ended, the exception that ended the run if one left
  a turn, and the final state.
\<close>

fun run_loop ::
  "'w env \<Rightarrow> message_ref list \<Rightarrow> 'w state
     \<Rightarrow> (message_ref \<times> outcome) list \<times> exn option \<times> 'w state" where
  "run_loop env [] st = ([], None, st)"
| "run_loop env (email # rest) st =
     (case process_email env st email of (r, st1) \<Rightarrow>
        (case r of
           Inl e \<Rightarrow> ([], Some e, st1)
         | Inr out \<Rightarrow>
             (case run_loop env rest st1 of (outs, raised, st2) \<Rightarrow>
                ((email, out) # outs, raised, st2))))"

text \<open>The state in which the script starts: the catalog of \<^verbatim>\<open>MockDatabase()\<close>, nothing called or printed.\<close>

definition initial_state :: "'w \<Rightarrow> 'w state" where
  "initial_state w = \<lparr>world = w, db = MockDatabase, calls = [], log = []\<rparr>"

text \<open>
  The script from the creation of the catalog on; the mail service is taken as built. \<open>None\<close>
  is a listing that never ends.
\<close>

definition main ::
  "'w env \<Rightarrow> 'w \<Rightarrow> ((message_ref \<times> outcome) list \<times> exn option \<times> 'w state) option" where
  "main env w =
     (case list_messages env (initial_state w) ''after:2024/12/22'' of
        None \<Rightarrow> None
      | Some (messages, st) \<Rightarrow> Some (run_loop env messages st))"

section \<open>The words of the specification\<close>

text \<open>
  An angle-bracket pattern, as the specification uses the words for a sender header: somewhere
  in the text a \<^verbatim>\<open><\<close>, then one character or more on the same line, then a \<^verbatim>\<open>>\<close>.
\<close>

definition has_angle_pattern :: "string \<Rightarrow> bool" where
  "has_angle_pattern s =
     (\<exists>before inside after.
        s = before @ CHR ''<'' # inside @ CHR ''>'' # after \<and> inside \<noteq> [] \<and> newline \<notin> set inside)"

text \<open>
  A text holds the group \<open>g\<close> in angle brackets: \<open>g\<close> is not empty, has no newline and
  stands between a \<^verbatim>\<open><\<close> and a \<^verbatim>\<open>>\<close> of the text.
\<close>

definition bracketed :: "string \<Rightarrow> string \<Rightarrow> bool" where
  "bracketed s g =
     (\<exists>pre post. s = pre @ CHR ''<'' # g @ CHR ''>'' # post \<and> g \<noteq> [] \<and> newline \<notin> set g)"

section \<open>A sample mail store and language model\<close>

text \<open>
  A concrete outside world on which the program is run: a listing of three messages on one
  page, every message with a \<^verbatim>\<open>From\<close> and a \<^verbatim>\<open>Subject\<close> header, a classifier that answers
  \<^verbatim>\<open>order_status\<close>, a composer that answers with a fixed text, and a mail store that creates
  every draft. The world is the number of calls made to the language model so far.
\<close>

definition sample_ref :: "string \<Rightarrow> message_ref" where
  "sample_ref i = \<lparr>ref_id = i, thread_id = i\<rparr>"

definition sample_message :: "string \<Rightarrow> message" where
  "sample_message i =
     \<lparr>msg_id = i,
      msg_headers = [(''From'', CHR 0x22 # ''Anna Smith'' @ CHR 0x22 # '' <anna.smith@email.com>''),
                     (''Subject'', ''My order'')],
      msg_snippet = ''Where is my order ORD54321?''\<rparr>"

definition sample_content :: "string \<Rightarrow> content" where
  "sample_content i =
     \<lparr>content_id = i, subject = ''My order'',
      sender = CHR 0x22 # ''Anna Smith'' @ CHR 0x22 # '' <anna.smith@email.com>'',
      snippet = ''Where is my order ORD54321?''\<rparr>"

definition sample_env :: "nat env" where
  "sample_env =
     \<lparr>list_request = (\<lambda>w query token.
        (Inr \<lparr>page_messages = Some [sample_ref ''m1'', sample_ref ''m2'', sample_ref ''m3''],
              next_page_token = None\<rparr>, w)),
      get_request = (\<lambda>w i. (Inr (sample_message i), w)),
      classify_llm = (\<lambda>w text. (Inr Order_status, Suc w)),
      respond_llm = (\<lambda>w text. (Inr ''Dear customer'', Suc w)),
      create_request = (\<lambda>w to subj body. (Inr [(''id'', ''r1'')], w)),
      html_unescape = (\<lambda>s. s)\<rparr>"

section \<open>Lemmas on the context and on the pattern\<close>

lemma str_nat_nonempty: "str_nat n \<noteq> []"
  by (subst str_nat.simps) simp

lemma str_nat_long: "10 ^ k \<le> n \<Longrightarrow> k < length (str_nat n)"
proof (induction k arbitrary: n)
  case 0
  then show ?case using str_nat_nonempty [of n] by simp
next
  case (Suc k)
  have "1 \<le> (10::nat) ^ k" by simp
  then have ten: "(10::nat) \<le> 10 * 10 ^ k" by simp
  from Suc.prems have "10 * 10 ^ k \<le> n" by simp
  with ten have big: "\<not> n < 10" by linarith
  from Suc.prems have "10 ^ k \<le> n div 10"
    by (simp add: less_eq_div_iff_mult_less_eq mult.commute)
  from Suc.IH [OF this] big show ?case
    by (subst str_nat.simps) simp
qed

lemma str_nat_short: "0 < k \<Longrightarrow> n < 10 ^ k \<Longrightarrow> length (str_nat n) \<le> k"
proof (induction k arbitrary: n)
  case 0
  then show ?case by simp
next
  case (Suc k)
  show ?case
  proof (cases "n < 10")
    case True
    then show ?thesis by (subst str_nat.simps) simp
  next
    case False
    with Suc.prems have k: "0 < k" by (cases k) auto
    from Suc.prems have "n div 10 < 10 ^ k"
      by (simp add: div_less_iff_less_mult mult.commute)
    from Suc.IH [OF k this] False show ?thesis
      by (subst str_nat.simps) simp
  qed
qed

lemma str_int_raises_iff: "(\<exists>e. str_int i = Inl e) \<longleftrightarrow> 10 ^ max_str_digits \<le> \<bar>i\<bar>"
proof -
  have pos: "0 < max_str_digits" by (simp add: max_str_digits_def)
  have "max_str_digits < length (str_nat (nat \<bar>i\<bar>)) \<longleftrightarrow> 10 ^ max_str_digits \<le> nat \<bar>i\<bar>"
    using str_nat_long [of max_str_digits "nat \<bar>i\<bar>"] str_nat_short [OF pos, of "nat \<bar>i\<bar>"]
    by (metis not_le)
  also have "\<dots> \<longleftrightarrow> 10 ^ max_str_digits \<le> \<bar>i\<bar>"
    by (simp add: le_nat_iff)
  finally show ?thesis by (auto simp: str_int_def)
qed

lemma str_int_long: "10 ^ max_str_digits \<le> \<bar>i\<bar> \<Longrightarrow> str_int i = Inl ValueError"
  using str_int_raises_iff [of i] by (auto simp: str_int_def split: if_splits)

lemma str_int_printable: "\<bar>i\<bar> < 10 ^ max_str_digits \<Longrightarrow> \<exists>s. str_int i = Inr s \<and> s \<noteq> []"
  using str_int_raises_iff [of i] by (auto simp: str_int_def str_nat_nonempty split: if_splits)

lemma str_int_nonempty: "str_int i = Inr s \<Longrightarrow> s \<noteq> []"
  by (auto simp: str_int_def str_nat_nonempty split: if_splits)

lemma get_context_db: "snd (get_context d category) = d"
  by (simp add: get_context_def get_order_status_def check_stock_def Let_def
        split: option.splits sum.splits)

lemma get_context_nonempty: "fst (get_context d category) = Inr s \<Longrightarrow> s \<noteq> []"
  by (auto simp: get_context_def get_order_status_def check_stock_def Let_def
        split: option.splits sum.splits if_splits)

lemma get_context_raises_iff:
  "(\<exists>e. fst (get_context d category) = Inl e)
     \<longleftrightarrow> category = ''stock_inquiry'' \<and> \<not> stock_printable d"
proof (cases "category = ''stock_inquiry''")
  case False
  then show ?thesis
    by (simp add: get_context_def get_order_status_def Let_def split: option.splits)
next
  case True
  show ?thesis
  proof (cases "map_of (products d) ''ADIDAS001''")
    case None
    with True show ?thesis
      by (simp add: get_context_def check_stock_def stock_printable_def)
  next
    case (Some p)
    have "(\<exists>e. fst (get_context d category) = Inl e) \<longleftrightarrow> (\<exists>e. str_int (p_stock p) = Inl e)"
      using True Some by (auto simp: get_context_def check_stock_def split: sum.splits)
    also have "\<dots> \<longleftrightarrow> \<not> \<bar>p_stock p\<bar> < 10 ^ max_str_digits"
      by (simp add: str_int_raises_iff not_less)
    finally show ?thesis using True Some by (simp add: stock_printable_def)
  qed
qed

lemma get_context_raises_ValueError: "fst (get_context d category) = Inl e \<Longrightarrow> e = ValueError"
  by (auto simp: get_context_def get_order_status_def check_stock_def Let_def str_int_def
        split: option.splits sum.splits if_splits)

lemma startup_stock_context:
  "get_context MockDatabase ''stock_inquiry''
     = (Inr ''Product Adidas Champions League Ball 2024 stock level: 0'', MockDatabase)"
proof -
  have "map_of (products MockDatabase) ''ADIDAS001''
      = Some \<lparr>p_id = ''ADIDAS001'', p_name = ''Adidas Champions League Ball 2024'',
          p_price = 149.99, p_stock = 0, p_category = ''football''\<rparr>"
    by (simp add: MockDatabase_def)
  moreover have "str_int 0 = Inr ''0''"
    by (simp add: str_int_def str_nat.simps digit_char_def max_str_digits_def)
  ultimately show ?thesis
    by (simp add: get_context_def check_stock_def)
qed

lemma startup_stock_printable: "stock_printable MockDatabase"
  by (simp add: stock_printable_def MockDatabase_def)

lemma close_lazy_Some:
  "close_lazy acc s = Some g \<Longrightarrow>
     \<exists>x post. s = x @ CHR ''>'' # post \<and> newline \<notin> set x \<and> g = acc @ x"
proof (induction acc s rule: close_lazy.induct)
  case (1 acc)
  then show ?case by simp
next
  case (2 acc c cs)
  show ?case
  proof (cases "c = CHR ''>''")
    case True
    with 2 show ?thesis by auto
  next
    case False
    with 2 have nl: "c \<noteq> newline" and rec: "close_lazy (acc @ [c]) cs = Some g"
      by (auto split: if_splits)
    from 2 False nl rec obtain x post where
      "cs = x @ CHR ''>'' # post" "newline \<notin> set x" "g = (acc @ [c]) @ x"
      by blast
    then have "c # cs = (c # x) @ CHR ''>'' # post \<and> newline \<notin> set (c # x) \<and> g = acc @ (c # x)"
      using nl by simp
    then show ?thesis by blast
  qed
qed

lemma angle_group_Some:
  "angle_group s = Some g \<Longrightarrow> \<exists>post. s = g @ CHR ''>'' # post \<and> g \<noteq> [] \<and> newline \<notin> set g"
proof (cases s)
  case Nil
  assume "angle_group s = Some g"
  with Nil show ?thesis by simp
next
  case (Cons c cs)
  assume a: "angle_group s = Some g"
  with Cons have nl: "c \<noteq> newline" and cl: "close_lazy [c] cs = Some g"
    by (auto split: if_splits)
  from close_lazy_Some [OF cl] obtain x post where
    "cs = x @ CHR ''>'' # post" "newline \<notin> set x" "g = [c] @ x" by blast
  with Cons nl show ?thesis by auto
qed


lemma bracketed_Cons: "bracketed s g \<Longrightarrow> bracketed (c # s) g"
  unfolding bracketed_def by (metis append_Cons)

lemma orelse_Some: "orelse a b = Some g \<Longrightarrow> a = Some g \<or> b = Some g"
  by (simp add: orelse_def split: option.splits)

lemma match_space_bracketed: "match_space s = Some g \<Longrightarrow> bracketed s g"
proof (induction s)
  case Nil
  then show ?case by simp
next
  case (Cons c cs)
  from Cons.prems have "(isspace c \<and> match_space cs = Some g) \<or> (c = CHR ''<'' \<and> angle_group cs = Some g)"
    by (auto dest!: orelse_Some split: if_splits)
  then show ?case
  proof
    assume "isspace c \<and> match_space cs = Some g"
    then show ?thesis using Cons.IH bracketed_Cons by blast
  next
    assume a: "c = CHR ''<'' \<and> angle_group cs = Some g"
    then obtain post where "cs = g @ CHR ''>'' # post" "g \<noteq> []" "newline \<notin> set g"
      using angle_group_Some by blast
    with a have "c # cs = [] @ CHR ''<'' # g @ CHR ''>'' # post \<and> g \<noteq> [] \<and> newline \<notin> set g" by simp
    then show ?thesis unfolding bracketed_def by blast
  qed
qed

lemma match_quote_bracketed:
  assumes "match_quote s = Some g"
  shows "bracketed s g"
proof -
  from assms have
    "(case s of [] \<Rightarrow> None | c # cs \<Rightarrow> if c = dquote then match_space cs else None) = Some g
       \<or> match_space s = Some g"
    unfolding match_quote_def by (rule orelse_Some)
  then show ?thesis
  proof
    assume "(case s of [] \<Rightarrow> None | c # cs \<Rightarrow> if c = dquote then match_space cs else None) = Some g"
    then obtain cs where "s = dquote # cs" "match_space cs = Some g"
      by (auto split: list.splits if_splits)
    then show ?thesis using match_space_bracketed bracketed_Cons by blast
  next
    assume "match_space s = Some g"
    then show ?thesis by (rule match_space_bracketed)
  qed
qed

lemma match_name_bracketed: "match_name s = Some g \<Longrightarrow> bracketed s g"
proof (induction s)
  case Nil
  then show ?case by (simp add: match_quote_bracketed)
next
  case (Cons c cs)
  from Cons.prems have "match_name cs = Some g \<or> match_quote (c # cs) = Some g"
    by (auto dest!: orelse_Some split: if_splits)
  then show ?case using Cons.IH bracketed_Cons match_quote_bracketed by blast
qed

lemma match_here_bracketed:
  assumes "match_here s = Some g"
  shows "bracketed s g"
proof -
  from assms have
    "(case s of [] \<Rightarrow> None | c # cs \<Rightarrow> if c = dquote then match_name cs else None) = Some g
       \<or> match_name s = Some g"
    unfolding match_here_def by (rule orelse_Some)
  then show ?thesis
  proof
    assume "(case s of [] \<Rightarrow> None | c # cs \<Rightarrow> if c = dquote then match_name cs else None) = Some g"
    then obtain cs where "s = dquote # cs" "match_name cs = Some g"
      by (auto split: list.splits if_splits)
    then show ?thesis using match_name_bracketed bracketed_Cons by blast
  next
    assume "match_name s = Some g"
    then show ?thesis by (rule match_name_bracketed)
  qed
qed

lemma pattern_search_bracketed: "pattern_search s = Some g \<Longrightarrow> bracketed s g"
proof (induction s)
  case Nil
  then show ?case by (simp add: match_here_bracketed)
next
  case (Cons c cs)
  from Cons.prems have "match_here (c # cs) = Some g \<or> pattern_search cs = Some g"
    by (auto dest!: orelse_Some)
  then show ?case using Cons.IH bracketed_Cons match_here_bracketed by blast
qed

lemma bracketed_has_angle_pattern: "bracketed s g \<Longrightarrow> has_angle_pattern s"
  unfolding bracketed_def has_angle_pattern_def by blast

lemma no_pattern_no_match: "\<not> has_angle_pattern s \<Longrightarrow> pattern_search s = None"
  using pattern_search_bracketed bracketed_has_angle_pattern by (cases "pattern_search s") auto


lemma orelse_None: "orelse a b = None \<longleftrightarrow> a = None \<and> b = None"
  by (simp add: orelse_def split: option.splits)

lemma close_lazy_matches: "newline \<notin> set x \<Longrightarrow> close_lazy acc (x @ CHR ''>'' # post) \<noteq> None"
  by (induction x arbitrary: acc) auto

lemma angle_group_matches:
  "x \<noteq> [] \<Longrightarrow> newline \<notin> set x \<Longrightarrow> angle_group (x @ CHR ''>'' # post) \<noteq> None"
proof (cases x)
  case Nil
  assume "x \<noteq> []"
  with Nil show ?thesis by simp
next
  case (Cons c cs)
  assume "newline \<notin> set x"
  with Cons have "c \<noteq> newline" "newline \<notin> set cs" by auto
  then show ?thesis using Cons close_lazy_matches [of cs "[c]" post] by simp
qed

lemma match_space_bracket: "angle_group t \<noteq> None \<Longrightarrow> match_space (CHR ''<'' # t) \<noteq> None"
  by (simp add: orelse_None)

lemma match_quote_bracket: "angle_group t \<noteq> None \<Longrightarrow> match_quote (CHR ''<'' # t) \<noteq> None"
  unfolding match_quote_def orelse_None using match_space_bracket by blast

lemma match_name_bracket: "angle_group t \<noteq> None \<Longrightarrow> match_name (CHR ''<'' # t) \<noteq> None"
  using match_quote_bracket [of t] by (simp add: orelse_None)

lemma match_here_bracket: "angle_group t \<noteq> None \<Longrightarrow> match_here (CHR ''<'' # t) \<noteq> None"
  unfolding match_here_def orelse_None using match_name_bracket by blast

lemma pattern_search_append: "match_here (c # t) \<noteq> None \<Longrightarrow> pattern_search (pre @ c # t) \<noteq> None"
  by (induction pre) (simp_all add: orelse_None)

lemma pattern_search_matches: "has_angle_pattern s \<Longrightarrow> pattern_search s \<noteq> None"
  unfolding has_angle_pattern_def
  using angle_group_matches match_here_bracket pattern_search_append by blast

lemma pattern_search_None_iff: "pattern_search s = None \<longleftrightarrow> \<not> has_angle_pattern s"
  using pattern_search_matches no_pattern_no_match by blast

lemma has_angle_pattern_bracket: "has_angle_pattern s \<Longrightarrow> CHR ''<'' \<in> set s"
  unfolding has_angle_pattern_def by auto


lemma get_message_content_db:
  "get_message_content env st i = (r, st1) \<Longrightarrow> db st1 = db st"
  by (auto simp: get_message_content_def split: prod.splits sum.splits)

lemma classify_email_db:
  "classify_email env st t = (r, st1) \<Longrightarrow> db st1 = db st"
  by (auto simp: classify_email_def split: prod.splits)

lemma generate_response_db:
  "generate_response env st cat c = (r, st1) \<Longrightarrow> db st1 = db st"
  using get_context_db [of "db st" cat]
  by (auto simp: generate_response_def split: prod.splits sum.splits)

lemma create_draft_email_db:
  "create_draft_email env st t s b = (r, st1) \<Longrightarrow> db st1 = db st"
  by (auto simp: create_draft_email_def split: prod.splits sum.splits)

lemma process_email_db:
  assumes "process_email env st m = (r, st')"
  shows "db st' = db st"
proof -
  obtain f st1 where g: "get_message_content env (st\<lparr>log := log st @ [ProcessingEmail (ref_id m)]\<rparr>) (ref_id m) = (f, st1)"
    by (cases "get_message_content env (st\<lparr>log := log st @ [ProcessingEmail (ref_id m)]\<rparr>) (ref_id m)")
  from get_message_content_db [OF g] have d1: "db st1 = db st" by simp
  show ?thesis
  proof (cases f)
    case None
    with assms g d1 show ?thesis by (auto simp: process_email_def)
  next
    case (Some c)
    obtain k st2 where cl: "classify_email env (st1\<lparr>log := log st1 @ [RetrievedContent c]\<rparr>) (snippet c) = (k, st2)"
      by (cases "classify_email env (st1\<lparr>log := log st1 @ [RetrievedContent c]\<rparr>) (snippet c)")
    from classify_email_db [OF cl] d1 have d2: "db st2 = db st" by simp
    show ?thesis
    proof (cases k)
      case (Inl e)
      with assms g Some cl d2 show ?thesis by (auto simp: process_email_def)
    next
      case (Inr cat)
      show ?thesis
      proof (cases "category_str cat \<in> set [''other'']")
        case True
        with assms g Some cl Inr d2 show ?thesis by (auto simp: process_email_def)
      next
        case False
        obtain p st3 where ge: "generate_response env (st2\<lparr>log := log st2 @ [ClassifiedAs cat]\<rparr>) (category_str cat) c = (p, st3)"
          by (cases "generate_response env (st2\<lparr>log := log st2 @ [ClassifiedAs cat]\<rparr>) (category_str cat) c")
        from generate_response_db [OF ge] d2 have d3: "db st3 = db st" by simp
        show ?thesis
        proof (cases p)
          case (Inl e)
          with assms g Some cl Inr False ge d3 show ?thesis by (auto simp: process_email_def)
        next
          case (Inr response)
          obtain d st4 where cr: "create_draft_email env st3 (sender c) (''Re: '' @ subject c) response = (d, st4)"
            by (cases "create_draft_email env st3 (sender c) (''Re: '' @ subject c) response")
          from create_draft_email_db [OF cr] d3 have d4: "db st4 = db st" by simp
          from assms g Some cl \<open>k = Inr cat\<close> False ge Inr cr d4 show ?thesis
            by (auto simp: process_email_def split: if_splits)
        qed
      qed
    qed
  qed
qed

lemma run_loop_db: "run_loop env ms st = (outs, raised, st') \<Longrightarrow> db st' = db st"
proof (induction ms arbitrary: st outs raised st')
  case Nil
  then show ?case by simp
next
  case (Cons m ms)
  obtain r st1 where p: "process_email env st m = (r, st1)"
    by (cases "process_email env st m")
  from process_email_db [OF p] have d1: "db st1 = db st" .
  show ?case
  proof (cases r)
    case (Inl e)
    with Cons.prems p d1 show ?thesis by simp
  next
    case (Inr out)
    obtain outs2 raised2 st2 where rl: "run_loop env ms st1 = (outs2, raised2, st2)"
      by (cases "run_loop env ms st1")
    from Cons.IH [OF rl] d1 have "db st2 = db st" by simp
    with Cons.prems p Inr rl show ?thesis by simp
  qed
qed

section \<open>Lemmas on fetching, on one turn of the loop and on the loop\<close>

lemma header_value_absent: "name \<notin> fst ` set hs \<Longrightarrow> header_value name hs = Inl StopIteration"
  by (induction hs) auto

lemma header_value_present: "name \<in> fst ` set hs \<Longrightarrow> \<exists>v. header_value name hs = Inr v"
  by (induction hs) auto

lemma header_value_Inl: "header_value name hs = Inl e \<Longrightarrow> e = StopIteration"
  by (induction hs) (auto split: if_splits)

lemma content_of_message_absent:
  "''Subject'' \<notin> fst ` set (msg_headers m) \<or> ''From'' \<notin> fst ` set (msg_headers m)
     \<Longrightarrow> content_of_message u m = Inl StopIteration"
  by (auto simp: content_of_message_def header_value_absent split: sum.splits
        dest: header_value_Inl)

lemma get_message_content_raises:
  "get_request env (world st) i = (Inl e, w1) \<Longrightarrow>
   get_message_content env st i =
     (None, st\<lparr>world := w1, calls := calls st @ [GetCall i], log := log st @ [ErrorOccurred e]\<rparr>)"
  by (simp add: get_message_content_def)

lemma get_message_content_bad:
  "get_request env (world st) i = (Inr m, w1) \<Longrightarrow> content_of_message (html_unescape env) m = Inl e \<Longrightarrow>
   get_message_content env st i =
     (None, st\<lparr>world := w1, calls := calls st @ [GetCall i], log := log st @ [ErrorOccurred e]\<rparr>)"
  by (simp add: get_message_content_def)

lemma get_message_content_ok:
  "get_request env (world st) i = (Inr m, w1) \<Longrightarrow> content_of_message (html_unescape env) m = Inr c \<Longrightarrow>
   get_message_content env st i = (Some c, st\<lparr>world := w1, calls := calls st @ [GetCall i]\<rparr>)"
  by (simp add: get_message_content_def)

lemma process_email_no_content:
  "get_message_content env (st\<lparr>log := log st @ [ProcessingEmail (ref_id email)]\<rparr>) (ref_id email)
     = (None, st1) \<Longrightarrow>
   process_email env st email = (Inr Failed, st1\<lparr>log := log st1 @ [CouldNotFetch (ref_id email)]\<rparr>)"
  by (simp add: process_email_def)

lemma process_email_fetch_raises:
  assumes "get_request env (world st) (ref_id email) = (Inl e, w1)"
  shows "process_email env st email =
     (Inr Failed, st\<lparr>world := w1, calls := calls st @ [GetCall (ref_id email)],
        log := log st @ [ProcessingEmail (ref_id email), ErrorOccurred e, CouldNotFetch (ref_id email)]\<rparr>)"
proof -
  from assms have "get_request env (world (st\<lparr>log := log st @ [ProcessingEmail (ref_id email)]\<rparr>)) (ref_id email) = (Inl e, w1)"
    by simp
  from process_email_no_content [OF get_message_content_raises [OF this]]
  show ?thesis by simp
qed

lemma process_email_bad_content:
  assumes "get_request env (world st) (ref_id email) = (Inr m, w1)"
    and "content_of_message (html_unescape env) m = Inl e"
  shows "process_email env st email =
     (Inr Failed, st\<lparr>world := w1, calls := calls st @ [GetCall (ref_id email)],
        log := log st @ [ProcessingEmail (ref_id email), ErrorOccurred e, CouldNotFetch (ref_id email)]\<rparr>)"
proof -
  from assms(1) have "get_request env (world (st\<lparr>log := log st @ [ProcessingEmail (ref_id email)]\<rparr>)) (ref_id email) = (Inr m, w1)"
    by simp
  from process_email_no_content [OF get_message_content_bad [OF this assms(2)]]
  show ?thesis by simp
qed

lemma process_email_other:
  assumes "get_request env (world st) (ref_id email) = (Inr m, w1)"
    and "content_of_message (html_unescape env) m = Inr c"
    and "classify_llm env w1 (snippet c) = (Inr Other, w2)"
  shows "process_email env st email =
     (Inr Skipped,
      st\<lparr>world := w2,
         calls := calls st @ [GetCall (ref_id email), ClassifyCall (snippet c)],
         log := log st @ [ProcessingEmail (ref_id email), RetrievedContent c, ClassifiedAs Other,
                          CategoryNotSupported (subject c)]\<rparr>)"
proof -
  from assms(1) have "get_request env (world (st\<lparr>log := log st @ [ProcessingEmail (ref_id email)]\<rparr>)) (ref_id email) = (Inr m, w1)"
    by simp
  from get_message_content_ok [OF this assms(2)] assms(3)
  show ?thesis by (simp add: process_email_def classify_email_def)
qed

lemma process_email_classifier_raises:
  assumes "get_request env (world st) (ref_id email) = (Inr m, w1)"
    and "content_of_message (html_unescape env) m = Inr c"
    and "classify_llm env w1 (snippet c) = (Inl e, w2)"
  shows "process_email env st email =
     (Inl e,
      st\<lparr>world := w2,
         calls := calls st @ [GetCall (ref_id email), ClassifyCall (snippet c)],
         log := log st @ [ProcessingEmail (ref_id email), RetrievedContent c]\<rparr>)"
proof -
  from assms(1) have "get_request env (world (st\<lparr>log := log st @ [ProcessingEmail (ref_id email)]\<rparr>)) (ref_id email) = (Inr m, w1)"
    by simp
  from get_message_content_ok [OF this assms(2)] assms(3)
  show ?thesis by (simp add: process_email_def classify_email_def)
qed

lemma process_email_composer_raises:
  assumes "get_request env (world st) (ref_id email) = (Inr m, w1)"
    and "content_of_message (html_unescape env) m = Inr c"
    and "classify_llm env w1 (snippet c) = (Inr k, w2)"
    and "k \<noteq> Other"
    and "get_context (db st) (category_str k) = (Inr ctx, db1)"
    and "respond_llm env w2 (prompt c ctx) = (Inl e, w3)"
  shows "fst (process_email env st email) = Inl e"
proof -
  from assms(1) have "get_request env (world (st\<lparr>log := log st @ [ProcessingEmail (ref_id email)]\<rparr>)) (ref_id email) = (Inr m, w1)"
    by simp
  from assms(4) have no: "category_str k \<noteq> ''other''" by (cases k) simp_all
  note gc = assms(5) and re = assms(6)
  from get_message_content_ok [OF \<open>get_request env (world (st\<lparr>log := log st @ [ProcessingEmail (ref_id email)]\<rparr>)) (ref_id email) = (Inr m, w1)\<close> assms(2)] assms(3) re no gc
  show ?thesis
    by (simp add: process_email_def classify_email_def generate_response_def)
qed

lemma run_loop_append:
  "run_loop env pre st = (outs1, None, st1) \<Longrightarrow> run_loop env post st1 = (outs2, raised, st2) \<Longrightarrow>
   run_loop env (pre @ post) st = (outs1 @ outs2, raised, st2)"
proof (induction pre arbitrary: st outs1)
  case Nil
  then show ?case by simp
next
  case (Cons m ms)
  obtain r sa where p: "process_email env st m = (r, sa)" by (cases "process_email env st m")
  show ?case
  proof (cases r)
    case (Inl e)
    with Cons.prems p show ?thesis by simp
  next
    case (Inr out)
    obtain o2 r2 sb where rl: "run_loop env ms sa = (o2, r2, sb)" by (cases "run_loop env ms sa")
    with Cons.prems(1) p Inr have eq: "outs1 = (m, out) # o2" "r2 = None" "sb = st1" by auto
    from Cons.IH [OF rl [unfolded eq(2,3)] Cons.prems(2)] p Inr eq
    show ?thesis by simp
  qed
qed

lemma run_loop_complete:
  "run_loop env ms st = (outs, None, st') \<Longrightarrow> map fst outs = ms"
proof (induction ms arbitrary: st outs st')
  case Nil
  then show ?case by simp
next
  case (Cons m ms)
  obtain r sa where p: "process_email env st m = (r, sa)" by (cases "process_email env st m")
  show ?case
  proof (cases r)
    case (Inl e)
    with Cons.prems p show ?thesis by simp
  next
    case (Inr out)
    obtain o2 r2 sb where rl: "run_loop env ms sa = (o2, r2, sb)" by (cases "run_loop env ms sa")
    with Cons.prems p Inr have eq: "outs = (m, out) # o2" "r2 = None" by auto
    from Cons.IH [OF rl [unfolded eq(2)]] eq show ?thesis by simp
  qed
qed

lemma run_loop_raised:
  "run_loop env ms st = (outs, Some e, st') \<Longrightarrow>
   length outs < length ms \<and> map fst outs = take (length outs) ms"
proof (induction ms arbitrary: st outs st')
  case Nil
  then show ?case by simp
next
  case (Cons m ms)
  obtain r sa where p: "process_email env st m = (r, sa)" by (cases "process_email env st m")
  show ?case
  proof (cases r)
    case (Inl e)
    with Cons.prems p show ?thesis by auto
  next
    case (Inr out)
    obtain o2 r2 sb where rl: "run_loop env ms sa = (o2, r2, sb)" by (cases "run_loop env ms sa")
    with Cons.prems p Inr have eq: "outs = (m, out) # o2" "r2 = Some e" by auto
    from Cons.IH [OF rl [unfolded eq(2)]] eq show ?thesis by simp
  qed
qed

lemma sample_env_simps:
  "get_request sample_env = (\<lambda>w i. (Inr (sample_message i), w))"
  "classify_llm sample_env = (\<lambda>w text. (Inr Order_status, Suc w))"
  "respond_llm sample_env = (\<lambda>w text. (Inr ''Dear customer'', Suc w))"
  "create_request sample_env = (\<lambda>w to subj body. (Inr [(''id'', ''r1'')], w))"
  "html_unescape sample_env = (\<lambda>s. s)"
  "list_request sample_env = (\<lambda>w query token.
        (Inr \<lparr>page_messages = Some [sample_ref ''m1'', sample_ref ''m2'', sample_ref ''m3''],
              next_page_token = None\<rparr>, w))"
  by (simp_all add: sample_env_def)

lemma content_of_sample: "content_of_message (\<lambda>s. s) (sample_message i) = Inr (sample_content i)"
  by (simp add: content_of_message_def sample_message_def sample_content_def)

lemma startup_context:
  "get_context MockDatabase ''order_status''
     = (Inr ''Order ORD54321 is processing. Tracking number: Not yet available'', MockDatabase)"
proof -
  have "map_of (orders MockDatabase) ''ORD54321''
      = Some \<lparr>o_id = ''ORD54321'', customer_email = ''margaret.brown@email.com'',
          status = ''processing'', items = [''YOGA001''], order_date = (2024, 12, 28),
          tracking_number = None\<rparr>"
    by (simp add: MockDatabase_def)
  then show ?thesis
    by (simp add: get_context_def get_order_status_def tracking_or_default_def Let_def)
qed

lemmas eval_defs = startup_context process_email_def get_message_content_def classify_email_def
  generate_response_def create_draft_email_def draft_truthy_def sample_env_simps
  content_of_sample sample_ref_def initial_state_def

lemma sample_content_simps:
  "snippet (sample_content i) = ''Where is my order ORD54321?''"
  "subject (sample_content i) = ''My order''"
  "sender (sample_content i) = CHR 0x22 # ''Anna Smith'' @ CHR 0x22 # '' <anna.smith@email.com>''"
  by (simp_all add: sample_content_def)

lemma list_pages_done:
  "next_page_token response = None \<Longrightarrow>
   list_pages env query response messages st = Some (Inr messages, st)"
  by (subst list_pages.simps) simp

lemma list_pages_raises:
  "next_page_token response = Some token \<Longrightarrow>
   list_request env (world st) query (Some token) = (Inl e, w1) \<Longrightarrow>
   list_pages env query response messages st =
     Some (Inl e, st\<lparr>world := w1, calls := calls st @ [ListCall query (Some token)]\<rparr>)"
  by (subst list_pages.simps) simp

lemma list_pages_missing_key:
  "next_page_token response = Some token \<Longrightarrow>
   list_request env (world st) query (Some token) = (Inr response', w1) \<Longrightarrow>
   page_messages response' = None \<Longrightarrow>
   list_pages env query response messages st =
     Some (Inl (KeyError ''messages''),
       st\<lparr>world := w1, calls := calls st @ [ListCall query (Some token)]\<rparr>)"
  by (subst list_pages.simps) simp

lemma list_pages_next:
  "next_page_token response = Some token \<Longrightarrow>
   list_request env (world st) query (Some token) = (Inr response', w1) \<Longrightarrow>
   page_messages response' = Some added \<Longrightarrow>
   list_pages env query response messages st =
     list_pages env query response' (messages @ added)
       (st\<lparr>world := w1, calls := calls st @ [ListCall query (Some token)]\<rparr>)"
  by (subst list_pages.simps) simp

lemma list_try_first_raises:
  "list_request env (world st) query None = (Inl e, w1) \<Longrightarrow>
   list_try env st query = Some (Inl e, st\<lparr>world := w1, calls := calls st @ [ListCall query None]\<rparr>)"
  by (simp add: list_try_def)

lemma list_messages_sample:
  "list_request env = list_request sample_env \<Longrightarrow>
   list_messages env (initial_state w) query
     = Some ([sample_ref ''m1'', sample_ref ''m2'', sample_ref ''m3''],
             (initial_state w)\<lparr>calls := [ListCall query None]\<rparr>)"
  by (simp add: list_messages_def list_try_def list_pages_done sample_env_simps initial_state_def)

lemma run_loop_fetch_failure:
  assumes "run_loop env pre st = (outs1, None, st1)"
    and "get_request env (world st1) (ref_id x) = (Inl e, w1)"
    and "run_loop env post
           (st1\<lparr>world := w1, calls := calls st1 @ [GetCall (ref_id x)],
                log := log st1 @ [ProcessingEmail (ref_id x), ErrorOccurred e,
                                  CouldNotFetch (ref_id x)]\<rparr>) = (outs2, raised, st2)"
  shows "run_loop env (pre @ x # post) st = (outs1 @ (x, Failed) # outs2, raised, st2)"
proof -
  from process_email_fetch_raises [OF assms(2)] assms(3)
  have "run_loop env (x # post) st1 = ((x, Failed) # outs2, raised, st2)"
    by simp
  from run_loop_append [OF assms(1) this] show ?thesis .
qed


text \<open>
  When neither the classifier nor the composer raises and the stock can be printed, no
  exception leaves a turn of the loop: the run ends normally and every message of the batch has
  its outcome, in the order of the batch.
\<close>

lemma generate_response_returns:
  assumes "\<forall>w p. \<exists>r w'. respond_llm env w p = (Inr r, w')"
    and "cat = ''stock_inquiry'' \<longrightarrow> stock_printable (db st)"
  shows "\<exists>r. fst (generate_response env st cat c) = Inr r"
proof -
  from assms(2) get_context_raises_iff [of "db st" cat]
  have "\<not> (\<exists>e. fst (get_context (db st) cat) = Inl e)" by blast
  then obtain ctx db1 where gc: "get_context (db st) cat = (Inr ctx, db1)"
    by (cases "get_context (db st) cat"; cases "fst (get_context (db st) cat)") auto
  from assms(1) obtain r w' where "respond_llm env (world st) (prompt c ctx) = (Inr r, w')"
    by blast
  with gc show ?thesis by (simp add: generate_response_def)
qed

lemma process_email_returns:
  assumes cl: "\<forall>w t. \<exists>k w'. classify_llm env w t = (Inr k, w')"
    and re: "\<forall>w p. \<exists>r w'. respond_llm env w p = (Inr r, w')"
    and sp: "stock_printable (db st)"
  shows "\<exists>out. fst (process_email env st m) = Inr out"
proof -
  obtain f st1 where g: "get_message_content env (st\<lparr>log := log st @ [ProcessingEmail (ref_id m)]\<rparr>) (ref_id m) = (f, st1)"
    by (cases "get_message_content env (st\<lparr>log := log st @ [ProcessingEmail (ref_id m)]\<rparr>) (ref_id m)")
  from get_message_content_db [OF g] have d1: "db st1 = db st" by simp
  show ?thesis
  proof (cases f)
    case None
    with g show ?thesis by (simp add: process_email_def)
  next
    case (Some c)
    from cl obtain k w' where k: "classify_llm env (world st1) (snippet c) = (Inr k, w')"
      by blast
    let ?st2 = "st1\<lparr>world := w', calls := calls st1 @ [ClassifyCall (snippet c)],
                    log := log st1 @ [RetrievedContent c]\<rparr>"
    from k have ce: "classify_email env (st1\<lparr>log := log st1 @ [RetrievedContent c]\<rparr>) (snippet c)
        = (Inr k, ?st2)"
      by (simp add: classify_email_def)
    show ?thesis
    proof (cases "category_str k \<in> set [''other'']")
      case True
      with g Some ce show ?thesis by (simp add: process_email_def)
    next
      case False
      let ?st2' = "?st2\<lparr>log := log ?st2 @ [ClassifiedAs k]\<rparr>"
      from sp d1 have "stock_printable (db ?st2')" by simp
      with generate_response_returns [OF re, of "category_str k" ?st2' c]
      obtain r where "fst (generate_response env ?st2' (category_str k) c) = Inr r" by blast
      then obtain st3 where ge: "generate_response env ?st2' (category_str k) c = (Inr r, st3)"
        by (cases "generate_response env ?st2' (category_str k) c") auto
      obtain d st4 where cr: "create_draft_email env st3 (sender c) (''Re: '' @ subject c) r = (d, st4)"
        by (cases "create_draft_email env st3 (sender c) (''Re: '' @ subject c) r")
      from g Some ce False ge cr show ?thesis
        by (simp add: process_email_def)
    qed
  qed
qed

lemma run_loop_returns:
  assumes cl: "\<forall>w t. \<exists>k w'. classify_llm env w t = (Inr k, w')"
    and re: "\<forall>w p. \<exists>r w'. respond_llm env w p = (Inr r, w')"
  shows "stock_printable (db st) \<Longrightarrow>
         fst (snd (run_loop env ms st)) = None \<and> map fst (fst (run_loop env ms st)) = ms"
proof (induction ms arbitrary: st)
  case Nil
  then show ?case by simp
next
  case (Cons m ms)
  from process_email_returns [OF cl re Cons.prems, of m]
  obtain out st1 where p: "process_email env st m = (Inr out, st1)"
    by (cases "process_email env st m") auto
  from process_email_db [OF p] Cons.prems have "stock_printable (db st1)" by simp
  from Cons.IH [OF this] p show ?case
    by (auto split: prod.splits)
qed

section \<open>The claims\<close>

text \<open>
  Claim C4. With the catalog created at startup, the context of the category
  \<^verbatim>\<open>order_status\<close> is exactly the string
  \<^verbatim>\<open>Order ORD54321 is processing. Tracking number: Not yet available\<close>.
\<close>

theorem startup_order_status_context:
  "fst (get_context MockDatabase ''order_status'')
     = Inr ''Order ORD54321 is processing. Tracking number: Not yet available''"
  by (simp add: get_context_def get_order_status_def MockDatabase_def tracking_or_default_def Let_def)

text \<open>
  Claim C3, as amended. Resolving the context is total on every category string and every
  catalog in which the stock of the product it looks up, when that product is present, has at
  most \<^const>\<open>max_str_digits\<close> decimal digits (for a category other than \<^verbatim>\<open>stock_inquiry\<close> on
  every catalog): it returns a string that is not empty without raising, leaves the catalog
  as it was, and when the order or the product it looks up is absent it returns exactly
  \<^verbatim>\<open>No additional context available\<close>.
\<close>

theorem get_context_total:
  assumes "category = ''stock_inquiry'' \<longrightarrow> stock_printable d"
  shows "(\<exists>s. fst (get_context d category) = Inr s \<and> s \<noteq> []) \<and>
         snd (get_context d category) = d \<and>
         (category = ''order_status'' \<and> map_of (orders d) ''ORD54321'' = None
            \<longrightarrow> fst (get_context d category) = Inr ''No additional context available'') \<and>
         (category = ''stock_inquiry'' \<and> map_of (products d) ''ADIDAS001'' = None
            \<longrightarrow> fst (get_context d category) = Inr ''No additional context available'')"
proof -
  from assms get_context_raises_iff [of d category]
  have "\<not> (\<exists>e. fst (get_context d category) = Inl e)" by blast
  then obtain s where s: "fst (get_context d category) = Inr s"
    by (cases "fst (get_context d category)") auto
  with get_context_nonempty have "\<exists>s. fst (get_context d category) = Inr s \<and> s \<noteq> []"
    by blast
  moreover have "category = ''order_status'' \<and> map_of (orders d) ''ORD54321'' = None
            \<longrightarrow> fst (get_context d category) = Inr ''No additional context available''"
    by (simp add: get_context_def get_order_status_def Let_def)
  moreover have "category = ''stock_inquiry'' \<and> map_of (products d) ''ADIDAS001'' = None
            \<longrightarrow> fst (get_context d category) = Inr ''No additional context available''"
    by (simp add: get_context_def check_stock_def)
  ultimately show ?thesis by (simp add: get_context_db)
qed

theorem get_context_total_witness:
  "stock_printable MockDatabase \<and>
   (\<exists>s. fst (get_context MockDatabase ''stock_inquiry'') = Inr s \<and> s \<noteq> []) \<and>
   fst (get_context MockDatabase ''stock_inquiry'')
     = Inr ''Product Adidas Champions League Ball 2024 stock level: 0'' \<and>
   snd (get_context MockDatabase ''stock_inquiry'') = MockDatabase \<and>
   map_of (orders \<lparr>products = [], orders = []\<rparr>) ''ORD54321'' = None \<and>
   map_of (products \<lparr>products = [], orders = []\<rparr>) ''ADIDAS001'' = None \<and>
   stock_printable \<lparr>products = [], orders = []\<rparr> \<and>
   fst (get_context \<lparr>products = [], orders = []\<rparr> ''order_status'')
     = Inr ''No additional context available'' \<and>
   fst (get_context \<lparr>products = [], orders = []\<rparr> ''stock_inquiry'')
     = Inr ''No additional context available''"
proof -
  have e: "stock_printable \<lparr>products = [], orders = []\<rparr>"
    by (simp add: stock_printable_def)
  from get_context_total [of "''stock_inquiry''" MockDatabase]
       get_context_total [of "''order_status''" "\<lparr>products = [], orders = []\<rparr>"]
       get_context_total [of "''stock_inquiry''" "\<lparr>products = [], orders = []\<rparr>"]
       startup_stock_printable e startup_stock_context
  show ?thesis by simp
qed

text \<open>
  As claim C3 was stated, for every state of the catalog, it fails: on a catalog whose product
  \<^verbatim>\<open>ADIDAS001\<close> has a stock of one digit more than the limit, the f-string of the stock level
  raises \<^verbatim>\<open>ValueError\<close> and no string is returned.
\<close>

theorem get_context_raises_on_overlong_stock:
  "fst (get_context overlong_catalog ''stock_inquiry'') = Inl ValueError"
proof -
  have "map_of (products overlong_catalog) ''ADIDAS001''
      = Some \<lparr>p_id = ''ADIDAS001'', p_name = ''Adidas Champions League Ball 2024'',
          p_price = 149.99, p_stock = 10 ^ max_str_digits, p_category = ''football''\<rparr>"
    by (simp add: overlong_catalog_def)
  moreover have "str_int (10 ^ max_str_digits) = Inl ValueError"
    by (rule str_int_long) simp
  ultimately show ?thesis
    by (simp add: get_context_def check_stock_def)
qed

text \<open>
  Claim C5. For the sender header \<^verbatim>\<open>"Anna Smith" <anna.smith@email.com>\<close> the address
  extracted is \<^verbatim>\<open>anna.smith@email.com\<close>, and for every sender header that holds no
  angle-bracket pattern the address extracted is the header with the whitespace at both ends
  removed.
\<close>

theorem clean_email_extraction:
  "clean_email (CHR 0x22 # ''Anna Smith'' @ CHR 0x22 # '' <anna.smith@email.com>'')
     = ''anna.smith@email.com'' \<and>
   (\<not> has_angle_pattern s \<longrightarrow> clean_email s = strip s)"
proof
  show "clean_email (CHR 0x22 # ''Anna Smith'' @ CHR 0x22 # '' <anna.smith@email.com>'')
     = ''anna.smith@email.com''"
    by (simp add: clean_email_def match_here_def match_quote_def orelse_def dquote_def
          newline_def isspace_def)
  show "\<not> has_angle_pattern s \<longrightarrow> clean_email s = strip s"
    by (simp add: clean_email_def no_pattern_no_match)
qed

theorem clean_email_extraction_witness:
  "\<not> has_angle_pattern '' anna.smith@email.com  '' \<and>
   clean_email '' anna.smith@email.com  '' = ''anna.smith@email.com''"
proof -
  have no: "\<not> has_angle_pattern '' anna.smith@email.com  ''"
    using has_angle_pattern_bracket [of "'' anna.smith@email.com  ''"] by auto
  have "strip '' anna.smith@email.com  '' = ''anna.smith@email.com''"
    by (simp add: strip_def isspace_def)
  with no clean_email_extraction [of "'' anna.smith@email.com  ''"] show ?thesis
    by simp
qed


text \<open>
  Claim C8. The lookups are idempotent and free of side effects, and the catalog never changes:
  no lookup changes the products or the orders, a lookup repeated with the same id returns the
  same result, and a whole run of the message loop leaves the catalog as it was.
\<close>

theorem lookups_leave_catalog:
  "snd (check_stock d product_id) = d \<and>
   snd (get_order_status d order_id) = d \<and>
   snd (search_orders_by_email d email) = d \<and>
   fst (check_stock (snd (check_stock d product_id)) product_id) = fst (check_stock d product_id) \<and>
   fst (get_order_status (snd (get_order_status d order_id)) order_id)
     = fst (get_order_status d order_id) \<and>
   db (snd (snd (run_loop env messages st))) = db st"
  using run_loop_db [of env messages st "fst (run_loop env messages st)"
      "fst (snd (run_loop env messages st))" "snd (snd (run_loop env messages st))"]
  by (simp add: check_stock_def get_order_status_def search_orders_by_email_def)

text \<open>
  Claim C6. A message classified as \<^verbatim>\<open>other\<close> is skipped: its turn of the loop ends as
  \<open>Skipped\<close> after the request for its content and the call of the classifier, the response
  composer is not called and no draft is created.
\<close>

theorem other_is_skipped:
  assumes "get_request env (world st) (ref_id email) = (Inr m, w1)"
    and "content_of_message (html_unescape env) m = Inr c"
    and "classify_llm env w1 (snippet c) = (Inr Other, w2)"
  shows "fst (process_email env st email) = Inr Skipped \<and>
         calls (snd (process_email env st email))
           = calls st @ [GetCall (ref_id email), ClassifyCall (snippet c)] \<and>
         filter is_compose_call (calls (snd (process_email env st email)))
           = filter is_compose_call (calls st) \<and>
         filter is_draft_call (calls (snd (process_email env st email)))
           = filter is_draft_call (calls st)"
  by (simp add: process_email_other [OF assms])

theorem other_is_skipped_witness:
  "process_email (sample_env\<lparr>classify_llm := \<lambda>w text. (Inr Other, Suc w)\<rparr>)
       (initial_state 0) (sample_ref ''m1'')
     = (Inr Skipped,
        (initial_state 0)\<lparr>world := 1,
           calls := [GetCall ''m1'', ClassifyCall ''Where is my order ORD54321?''],
           log := [ProcessingEmail ''m1'', RetrievedContent (sample_content ''m1''),
                   ClassifiedAs Other, CategoryNotSupported ''My order'']\<rparr>)"
proof -
  let ?E = "sample_env\<lparr>classify_llm := \<lambda>w text. (Inr Other, Suc w)\<rparr>"
  have a: "get_request ?E (world (initial_state 0)) (ref_id (sample_ref ''m1''))
             = (Inr (sample_message ''m1''), 0)"
    by (simp add: sample_env_simps initial_state_def sample_ref_def)
  have b: "content_of_message (html_unescape ?E) (sample_message ''m1'') = Inr (sample_content ''m1'')"
    by (simp add: sample_env_simps content_of_sample)
  have c: "classify_llm ?E 0 (snippet (sample_content ''m1'')) = (Inr Other, 1)"
    by simp
  from other_is_skipped [OF a b c] show ?thesis
    by (simp add: eval_defs sample_content_simps)
qed


text \<open>
  Claim C9. When the body of \<^verbatim>\<open>list_messages\<close> raises an exception, on the first request or on
  a later page, \<^verbatim>\<open>list_messages\<close> prints it and returns the empty list, and the script then
  ends normally with no message processed.
\<close>

theorem listing_exception_empty_run:
  assumes "list_try env st query = Some (Inl e, st1)"
  shows "list_messages env st query = Some ([], st1\<lparr>log := log st1 @ [ErrorOccurred e]\<rparr>) \<and>
         (st = initial_state w \<and> query = ''after:2024/12/22'' \<longrightarrow>
            main env w = Some ([], None, st1\<lparr>log := log st1 @ [ErrorOccurred e]\<rparr>))"
proof -
  from assms have lm:
    "list_messages env st query = Some ([], st1\<lparr>log := log st1 @ [ErrorOccurred e]\<rparr>)"
    by (simp add: list_messages_def)
  then show ?thesis by (auto simp: main_def)
qed

theorem listing_exception_empty_run_witness:
  "list_try
     (sample_env\<lparr>list_request := \<lambda>w query token.
        case token of
          None \<Rightarrow> (Inr \<lparr>page_messages = Some [sample_ref ''m1''], next_page_token = Some ''p2''\<rparr>, w)
        | Some t \<Rightarrow> (Inl (Error ''session expired''), w)\<rparr>)
     (initial_state 0) ''after:2024/12/22''
     = Some (Inl (Error ''session expired''),
         (initial_state 0)\<lparr>calls := [ListCall ''after:2024/12/22'' None,
                                      ListCall ''after:2024/12/22'' (Some ''p2'')]\<rparr>) \<and>
   main
     (sample_env\<lparr>list_request := \<lambda>w query token.
        case token of
          None \<Rightarrow> (Inr \<lparr>page_messages = Some [sample_ref ''m1''], next_page_token = Some ''p2''\<rparr>, w)
        | Some t \<Rightarrow> (Inl (Error ''session expired''), w)\<rparr>) 0
     = Some ([], None,
         (initial_state 0)\<lparr>calls := [ListCall ''after:2024/12/22'' None,
                                      ListCall ''after:2024/12/22'' (Some ''p2'')],
                           log := [ErrorOccurred (Error ''session expired'')]\<rparr>)"
proof -
  let ?E = "sample_env\<lparr>list_request := \<lambda>w query token.
        case token of
          None \<Rightarrow> (Inr \<lparr>page_messages = Some [sample_ref ''m1''], next_page_token = Some ''p2''\<rparr>, w)
        | Some t \<Rightarrow> (Inl (Error ''session expired''), w)\<rparr>"
  let ?q = "''after:2024/12/22''"
  let ?st1 = "(initial_state (0::nat))\<lparr>calls := [ListCall ?q None, ListCall ?q (Some ''p2'')]\<rparr>"
  have raised: "list_try ?E (initial_state 0) ?q = Some (Inl (Error ''session expired''), ?st1)"
    by (simp add: list_try_def list_pages_raises [where token = "''p2''"] initial_state_def)
  from listing_exception_empty_run [OF raised, of 0] raised show ?thesis
    by (simp add: initial_state_def)
qed

text \<open>
  Claim C10. When the headers of a fetched message hold no \<^verbatim>\<open>Subject\<close> entry or no \<^verbatim>\<open>From\<close>
  entry, \<^verbatim>\<open>get_message_content\<close> catches the \<^verbatim>\<open>StopIteration\<close> of the header scan, prints it
  and returns \<^verbatim>\<open>None\<close>; the loop treats the message as one whose content could not be fetched
  and goes on without classifying it or creating a draft.
\<close>

theorem missing_header_is_fetch_failure:
  assumes "get_request env (world st) (ref_id email) = (Inr m, w1)"
    and "''Subject'' \<notin> fst ` set (msg_headers m) \<or> ''From'' \<notin> fst ` set (msg_headers m)"
  shows "get_message_content env st (ref_id email)
           = (None, st\<lparr>world := w1, calls := calls st @ [GetCall (ref_id email)],
                       log := log st @ [ErrorOccurred StopIteration]\<rparr>) \<and>
         process_email env st email
           = (Inr Failed,
              st\<lparr>world := w1, calls := calls st @ [GetCall (ref_id email)],
                 log := log st @ [ProcessingEmail (ref_id email), ErrorOccurred StopIteration,
                                  CouldNotFetch (ref_id email)]\<rparr>)"
  using get_message_content_bad [OF assms(1) content_of_message_absent [OF assms(2)]]
    process_email_bad_content [OF assms(1) content_of_message_absent [OF assms(2)]]
  by simp

theorem missing_header_is_fetch_failure_witness:
  "process_email
      (sample_env\<lparr>get_request := \<lambda>w i.
         (Inr \<lparr>msg_id = i, msg_headers = [(''From'', ''anna.smith@email.com'')],
               msg_snippet = ''Hello''\<rparr>, w)\<rparr>)
      (initial_state 0) (sample_ref ''m1'')
     = (Inr Failed,
        (initial_state 0)\<lparr>calls := [GetCall ''m1''],
           log := [ProcessingEmail ''m1'', ErrorOccurred StopIteration, CouldNotFetch ''m1'']\<rparr>)"
proof -
  let ?m = "\<lparr>msg_id = ''m1'', msg_headers = [(''From'', ''anna.smith@email.com'')],
               msg_snippet = ''Hello''\<rparr>"
  let ?E = "sample_env\<lparr>get_request := \<lambda>w i.
         (Inr \<lparr>msg_id = i, msg_headers = [(''From'', ''anna.smith@email.com'')],
               msg_snippet = ''Hello''\<rparr>, w)\<rparr>"
  have a: "get_request ?E (world (initial_state 0)) (ref_id (sample_ref ''m1'')) = (Inr ?m, 0)"
    by (simp add: initial_state_def sample_ref_def)
  have b: "''Subject'' \<notin> fst ` set (msg_headers ?m) \<or> ''From'' \<notin> fst ` set (msg_headers ?m)"
    by simp
  from missing_header_is_fetch_failure [OF a b] show ?thesis
    by (simp add: initial_state_def sample_ref_def)
qed

text \<open>
  Claim C1 says that an exception of the composer or of the classifier makes that message alone
  end as \<open>Failed\<close> while the loop goes on. The calls of \<^verbatim>\<open>classify_email\<close> and
  \<^verbatim>\<open>generate_response\<close> stand in no \<^verbatim>\<open>try\<close>: on a batch of two messages, an exception of the
  composer on the first message ends the run with that exception, no message has an outcome and
  the second message is never fetched; the same holds for an exception of the classifier. With
  no exception both messages are drafted.
\<close>

theorem backend_exception_aborts_run:
  "(case run_loop
       (sample_env\<lparr>respond_llm := \<lambda>w text.
          if w = 1 then (Inl (Error ''backend unavailable''), Suc w)
          else (Inr ''Dear customer'', Suc w)\<rparr>)
       [sample_ref ''m1'', sample_ref ''m2''] (initial_state 0) of
     (outs, raised, st) \<Rightarrow> (outs, raised, calls st))
   = ([], Some (Error ''backend unavailable''),
      [GetCall ''m1'', ClassifyCall ''Where is my order ORD54321?'',
       ComposeCall (prompt (sample_content ''m1'')
         ''Order ORD54321 is processing. Tracking number: Not yet available'')]) \<and>
   (case run_loop
       (sample_env\<lparr>classify_llm := \<lambda>w text.
          if w = 0 then (Inl (Error ''rate limit''), Suc w) else (Inr Order_status, Suc w)\<rparr>)
       [sample_ref ''m1'', sample_ref ''m2''] (initial_state 0) of
     (outs, raised, st) \<Rightarrow> (outs, raised, calls st))
   = ([], Some (Error ''rate limit''),
      [GetCall ''m1'', ClassifyCall ''Where is my order ORD54321?'']) \<and>
   (case run_loop sample_env [sample_ref ''m1'', sample_ref ''m2''] (initial_state 0) of
     (outs, raised, st) \<Rightarrow> (outs, raised))
   = ([(sample_ref ''m1'', Drafted), (sample_ref ''m2'', Drafted)], None)"
  by (simp add: eval_defs sample_content_simps)

text \<open>
  Claim C2 says that every message of the batch ends in exactly one of \<open>Skipped\<close>,
  \<open>Drafted\<close> and \<open>Failed\<close>. On the batch of three messages of the sample mail store, an
  exception of the classifier on the second message ends the script: the first message is
  drafted, the second and the third have no outcome and the third is never fetched.
\<close>

theorem classifier_exception_leaves_messages_without_outcome:
  "map_option (\<lambda>(outs, raised, st). (outs, raised, GetCall ''m3'' \<in> set (calls st)))
     (main
        (sample_env\<lparr>classify_llm := \<lambda>w text.
           if w = 2 then (Inl (Error ''rate limit''), Suc w) else (Inr Order_status, Suc w)\<rparr>) 0)
   = Some ([(sample_ref ''m1'', Drafted)], Some (Error ''rate limit''), False)"
  by (simp add: main_def list_messages_sample)
     (simp add: eval_defs sample_content_simps)

end
